theory Spec2Isabelle
  imports Complex_Main "HOL-Library.AList"
begin

section \<open>Data model (types.ts)\<close>

text \<open>
  The twelve members of the union type \<^verbatim>\<open>Timeframe\<close>, with the string each one is
  at run time. JavaScript numbers are modelled as \<^typ>\<open>real\<close>: the detector only compares
  the latest RSI value with the constants 70 and 30, which is exact on every finite double
  (a NaN fails both comparisons and takes the neutral branch, as a value between them does).
\<close>

datatype Timeframe =
  TF_1m | TF_3m | TF_5m | TF_15m | TF_30m | TF_1h | TF_2h | TF_4h | TF_8h | TF_1d | TF_3d | TF_1w

fun timeframe_str :: "Timeframe \<Rightarrow> string" where
  "timeframe_str TF_1m = ''1m''"
| "timeframe_str TF_3m = ''3m''"
| "timeframe_str TF_5m = ''5m''"
| "timeframe_str TF_15m = ''15m''"
| "timeframe_str TF_30m = ''30m''"
| "timeframe_str TF_1h = ''1h''"
| "timeframe_str TF_2h = ''2h''"
| "timeframe_str TF_4h = ''4h''"
| "timeframe_str TF_8h = ''8h''"
| "timeframe_str TF_1d = ''1d''"
| "timeframe_str TF_3d = ''3d''"
| "timeframe_str TF_1w = ''1w''"

record RsiDataPoint =
  dp_time :: int
  dp_value :: real

record PriceDataPoint =
  k_time :: int
  k_open :: real
  k_high :: real
  k_low :: real
  k_close :: real
  k_volume :: real
  k_takerBuyVolume :: real

record SymbolData =
  rsi :: "RsiDataPoint list"
  sma :: "RsiDataPoint list"
  stochK :: "RsiDataPoint list"
  stochD :: "RsiDataPoint list"
  price :: real
  volume :: real
  klines :: "PriceDataPoint list"

text \<open>The three strings stored in \<^verbatim>\<open>lastAlertedRsiStatus\<close>, and the two a notification carries.\<close>

datatype rsi_status = Overbought | Oversold | Neutral

datatype notification_type = N_overbought | N_oversold

text \<open>The argument of \<^verbatim>\<open>addNotification\<close>: a \<^verbatim>\<open>Notification\<close> without \<^verbatim>\<open>id\<close> and \<^verbatim>\<open>read\<close>.\<close>

record AlertEvent =
  n_symbol :: string
  n_timeframe :: Timeframe
  n_rsi :: real
  n_type :: notification_type

section \<open>The RSI alert effect (App.tsx)\<close>

text \<open>
  A JavaScript object with string keys is an association list with distinct keys, in insertion
  order: \<^const>\<open>AList.update\<close> overwrites an existing key in place and appends a new one, as
  property assignment does, and \<^const>\<open>map_of\<close> reads a property (\<^const>\<open>None\<close> is
  \<^verbatim>\<open>undefined\<close>). \<^verbatim>\<open>JSON.stringify\<close> of two such objects whose values are the three
  status strings gives equal texts exactly when the lists are equal.
\<close>

type_synonym alert_state = "(string \<times> rsi_status) list"

definition ALLOWED_TIMEFRAMES_FOR_ALERTS :: "Timeframe list" where
  "ALLOWED_TIMEFRAMES_FOR_ALERTS =
     [TF_5m, TF_15m, TF_30m, TF_1h, TF_2h, TF_4h, TF_8h, TF_1d, TF_3d, TF_1w]"

definition overboughtThreshold :: real where
  "overboughtThreshold = 70"

definition oversoldThreshold :: real where
  "oversoldThreshold = 30"

definition alertKey :: "string \<Rightarrow> Timeframe \<Rightarrow> string" where
  "alertKey symbol timeframe = symbol @ ''-'' @ timeframe_str timeframe"

definition previousStatus :: "alert_state \<Rightarrow> string \<Rightarrow> rsi_status" where
  "previousStatus lastAlertedRsiStatus key =
     (case map_of lastAlertedRsiStatus key of None \<Rightarrow> Neutral | Some s \<Rightarrow> s)"

text \<open>
  The callback of \<^verbatim>\<open>Object.keys(symbolsData).forEach\<close>. It reads the previous status in
  the old map \<^verbatim>\<open>lastAlertedRsiStatus\<close>, and writes the local copy \<^verbatim>\<open>newAlertStatus\<close>;
  the events are the calls of \<^verbatim>\<open>addNotification\<close>, in call order.
\<close>

definition alert_body ::
  "Timeframe \<Rightarrow> (string \<times> SymbolData) list \<Rightarrow> alert_state \<Rightarrow> string \<Rightarrow>
   AlertEvent list \<times> alert_state \<Rightarrow> AlertEvent list \<times> alert_state" where
  "alert_body timeframe symbolsData lastAlertedRsiStatus symbol acc =
     (case acc of (events, newAlertStatus) \<Rightarrow>
      (case map_of symbolsData symbol of
         None \<Rightarrow> (events, newAlertStatus)
       | Some symbolData \<Rightarrow>
           if rsi symbolData = [] then (events, newAlertStatus)
           else
             let lastRsi = dp_value (last (rsi symbolData));
                 key = alertKey symbol timeframe;
                 prev = previousStatus lastAlertedRsiStatus key
             in if lastRsi \<ge> overboughtThreshold then
                  ((if prev \<noteq> Overbought
                    then events @ [\<lparr>n_symbol = symbol, n_timeframe = timeframe,
                                    n_rsi = lastRsi, n_type = N_overbought\<rparr>]
                    else events),
                   AList.update key Overbought newAlertStatus)
                else if lastRsi \<le> oversoldThreshold then
                  ((if prev \<noteq> Oversold
                    then events @ [\<lparr>n_symbol = symbol, n_timeframe = timeframe,
                                    n_rsi = lastRsi, n_type = N_oversold\<rparr>]
                    else events),
                   AList.update key Oversold newAlertStatus)
                else (events, AList.update key Neutral newAlertStatus)))"

fun alert_forEach ::
  "Timeframe \<Rightarrow> (string \<times> SymbolData) list \<Rightarrow> alert_state \<Rightarrow> string list \<Rightarrow>
   AlertEvent list \<times> alert_state \<Rightarrow> AlertEvent list \<times> alert_state" where
  "alert_forEach timeframe symbolsData lastAlertedRsiStatus [] acc = acc"
| "alert_forEach timeframe symbolsData lastAlertedRsiStatus (symbol # rest) acc =
     alert_forEach timeframe symbolsData lastAlertedRsiStatus rest
       (alert_body timeframe symbolsData lastAlertedRsiStatus symbol acc)"

text \<open>
  One run of the effect: the events it emits and the value of the React state
  \<^verbatim>\<open>lastAlertedRsiStatus\<close> after it. The state is set only when the new map differs.
\<close>

definition rsi_alert_effect ::
  "bool \<Rightarrow> Timeframe \<Rightarrow> (string \<times> SymbolData) list \<Rightarrow> alert_state \<Rightarrow>
   AlertEvent list \<times> alert_state" where
  "rsi_alert_effect areAlertsEnabled timeframe symbolsData lastAlertedRsiStatus =
     (if \<not> areAlertsEnabled \<or> timeframe \<notin> set ALLOWED_TIMEFRAMES_FOR_ALERTS
         \<or> length (map fst symbolsData) = 0
      then ([], lastAlertedRsiStatus)
      else
        (case alert_forEach timeframe symbolsData lastAlertedRsiStatus (map fst symbolsData)
                ([], lastAlertedRsiStatus) of
           (events, newAlertStatus) \<Rightarrow>
             (events,
              if newAlertStatus \<noteq> lastAlertedRsiStatus then newAlertStatus
              else lastAlertedRsiStatus)))"

text \<open>Successive refreshes: each run starts from the state the previous one left.\<close>

fun run_refreshes ::
  "alert_state \<Rightarrow> (bool \<times> Timeframe \<times> (string \<times> SymbolData) list) list \<Rightarrow>
   AlertEvent list list \<times> alert_state" where
  "run_refreshes st [] = ([], st)"
| "run_refreshes st ((en, tf, sd) # rest) =
     (case rsi_alert_effect en tf sd st of
        (evs, st') \<Rightarrow> (case run_refreshes st' rest of (evss, st'') \<Rightarrow> (evs # evss, st'')))"

text \<open>A symbol data record whose RSI series is the given list of values.\<close>

definition symbol_with_rsi :: "real list \<Rightarrow> SymbolData" where
  "symbol_with_rsi vs =
     \<lparr>rsi = map (\<lambda>v. \<lparr>dp_time = 0, dp_value = v\<rparr>) vs, sma = [], stochK = [], stochD = [],
      price = 0, volume = 0, klines = []\<rparr>"

text \<open>
  The same run, one program point at a time. A configuration holds the React state an
  observer can read, the local copy \<^verbatim>\<open>newAlertStatus\<close>, the notifications sent so far, the
  keys \<^verbatim>\<open>forEach\<close> has still to visit, and whether the effect has returned. Only the last
  statement of the effect writes the React state.
\<close>

record effect_cfg =
  observable :: alert_state
  newAlertStatus :: alert_state
  emitted :: "AlertEvent list"
  pending :: "string list"
  returned :: bool

definition effect_init ::
  "bool \<Rightarrow> Timeframe \<Rightarrow> (string \<times> SymbolData) list \<Rightarrow> alert_state \<Rightarrow> effect_cfg" where
  "effect_init areAlertsEnabled timeframe symbolsData lastAlertedRsiStatus =
     (if \<not> areAlertsEnabled \<or> timeframe \<notin> set ALLOWED_TIMEFRAMES_FOR_ALERTS
         \<or> length (map fst symbolsData) = 0
      then \<lparr>observable = lastAlertedRsiStatus, newAlertStatus = lastAlertedRsiStatus,
            emitted = [], pending = [], returned = True\<rparr>
      else \<lparr>observable = lastAlertedRsiStatus, newAlertStatus = lastAlertedRsiStatus,
            emitted = [], pending = map fst symbolsData, returned = False\<rparr>)"

definition effect_step ::
  "Timeframe \<Rightarrow> (string \<times> SymbolData) list \<Rightarrow> alert_state \<Rightarrow> effect_cfg \<Rightarrow> effect_cfg" where
  "effect_step timeframe symbolsData lastAlertedRsiStatus c =
     (if returned c then c
      else
        (case pending c of
           [] \<Rightarrow>
             c\<lparr>observable :=
                  (if newAlertStatus c \<noteq> lastAlertedRsiStatus then newAlertStatus c
                   else observable c),
               returned := True\<rparr>
         | symbol # rest \<Rightarrow>
             (case alert_body timeframe symbolsData lastAlertedRsiStatus symbol
                     (emitted c, newAlertStatus c) of
                (events, new) \<Rightarrow> c\<lparr>emitted := events, newAlertStatus := new, pending := rest\<rparr>)))"

text \<open>Helpers for stating the transition rule: the status and the notifications a value calls for.\<close>

definition status_of :: "real \<Rightarrow> rsi_status" where
  "status_of r = (if r \<ge> 70 then Overbought else if r \<le> 30 then Oversold else Neutral)"

definition events_of :: "string \<Rightarrow> Timeframe \<Rightarrow> rsi_status \<Rightarrow> real \<Rightarrow> AlertEvent list" where
  "events_of symbol tf prev r =
     (if r \<ge> 70 then
        (if prev \<noteq> Overbought
         then [\<lparr>n_symbol = symbol, n_timeframe = tf, n_rsi = r, n_type = N_overbought\<rparr>] else [])
      else if r \<le> 30 then
        (if prev \<noteq> Oversold
         then [\<lparr>n_symbol = symbol, n_timeframe = tf, n_rsi = r, n_type = N_oversold\<rparr>] else [])
      else [])"

text \<open>
  The value \<^verbatim>\<open>symbolData.rsi[symbolData.rsi.length - 1].value\<close> the effect reads, when the
  series is not empty.
\<close>

definition latest_rsi :: "SymbolData \<Rightarrow> real option" where
  "latest_rsi d = (if rsi d = [] then None else Some (dp_value (last (rsi d))))"

section \<open>The Wilder and Stochastic calculators (spec 4.2 and 4.3)\<close>

text \<open>
  Modelled from the spec: the error kinds of the engine (section 7); no declaration of them
  is among the sources.
\<close>

datatype engine_error = MalformedCandle | EmptyInput | InsufficientData

text \<open>
  Modelled from the spec: the fixed period \<open>P = 14\<close> of the Wilder Oscillator Calculator,
  whose code (\<^verbatim>\<open>services/binanceService\<close>) is not among the sources. Numbers are exact reals.
\<close>

definition period_P :: nat where
  "period_P = 14"

text \<open>Modelled from the spec: step 1 of 4.2, the signed deltas of consecutive closes.\<close>

fun price_deltas :: "real list \<Rightarrow> real list" where
  "price_deltas (a # b # rest) = (b - a) # price_deltas (b # rest)"
| "price_deltas _ = []"

text \<open>Modelled from the spec: step 3 of 4.2, \<open>gain = max(\<Delta>, 0)\<close>.\<close>

definition gain :: "real \<Rightarrow> real" where
  "gain d = max d 0"

text \<open>Modelled from the spec: step 3 of 4.2, \<open>loss = max(-\<Delta>, 0)\<close>.\<close>

definition loss :: "real \<Rightarrow> real" where
  "loss d = max (- d) 0"

text \<open>
  Modelled from the spec: step 2 of 4.2, the seed averages, the simple means of the gains
  and of the losses over the first \<open>P\<close> deltas.
\<close>

definition seed_averages :: "real list \<Rightarrow> real \<times> real" where
  "seed_averages ds =
     (sum_list (map gain (take period_P ds)) / real period_P,
      sum_list (map loss (take period_P ds)) / real period_P)"

text \<open>Modelled from the spec: step 3 of 4.2, Wilder smoothing over each later delta.\<close>

fun wilder_smoothing :: "real \<times> real \<Rightarrow> real list \<Rightarrow> (real \<times> real) list" where
  "wilder_smoothing avg [] = []"
| "wilder_smoothing avg (d # ds) =
     (let avg' = ((fst avg * (real period_P - 1) + gain d) / real period_P,
                  (snd avg * (real period_P - 1) + loss d) / real period_P)
      in avg' # wilder_smoothing avg' ds)"

text \<open>
  Modelled from the spec: steps 1 to 3 of 4.2 together, the pair (avgGain, avgLoss) at every
  candle from index \<open>P\<close> on.
\<close>

definition wilder_averages :: "real list \<Rightarrow> (real \<times> real) list" where
  "wilder_averages closes =
     (let ds = price_deltas closes; seed = seed_averages ds
      in seed # wilder_smoothing seed (drop period_P ds))"

text \<open>
  Modelled from the spec: step 4 of 4.2, \<open>RSI = 100 - 100 / (1 + RS)\<close> with
  \<open>RS = avgGain / avgLoss\<close>, and its two edge cases.
\<close>

definition rsi_value :: "real \<Rightarrow> real \<Rightarrow> real" where
  "rsi_value avgGain avgLoss =
     (if avgLoss = 0 \<and> avgGain > 0 then 100
      else if avgGain = 0 \<and> avgLoss = 0 then 50
      else 100 - 100 / (1 + avgGain / avgLoss))"

text \<open>
  Modelled from the spec: the RSI series of 4.2, one point per candle from index \<open>P\<close> on,
  and the empty series when there are at most \<open>P\<close> candles.
\<close>

definition wilder_rsi :: "PriceDataPoint list \<Rightarrow> RsiDataPoint list" where
  "wilder_rsi candles =
     (if length candles \<le> period_P then []
      else map2 (\<lambda>c avg. \<lparr>dp_time = k_time c, dp_value = rsi_value (fst avg) (snd avg)\<rparr>)
             (drop period_P candles) (wilder_averages (map k_close candles)))"

text \<open>
  Modelled from the spec: the trailing simple moving average over a window of \<open>w\<close> points
  (step 6 of 4.2, and \<open>%D\<close> of 4.3); the result is shorter by \<open>w - 1\<close> points.
\<close>

definition trailing_sma :: "nat \<Rightarrow> RsiDataPoint list \<Rightarrow> RsiDataPoint list" where
  "trailing_sma w xs =
     map (\<lambda>i. \<lparr>dp_time = dp_time (xs ! (i + w - 1)),
               dp_value = sum_list (map dp_value (take w (drop i xs))) / real w\<rparr>)
       [0 ..< length xs + 1 - w]"

text \<open>Modelled from the spec: the output \<open>{rsi, sma}\<close> of the Wilder Oscillator Calculator.\<close>

definition wilder_oscillator :: "PriceDataPoint list \<Rightarrow> RsiDataPoint list \<times> RsiDataPoint list" where
  "wilder_oscillator candles = (wilder_rsi candles, trailing_sma period_P (wilder_rsi candles))"

text \<open>Modelled from the spec: the lookback period \<open>L = 14\<close> of the Stochastic calculator (4.3).\<close>

definition lookback_L :: nat where
  "lookback_L = 14"

text \<open>Modelled from the spec: the smoothing period \<open>S = 3\<close> of the Stochastic calculator (4.3).\<close>

definition smoothing_S :: nat where
  "smoothing_S = 3"

text \<open>
  Modelled from the spec: \<open>%K\<close> of one lookback window of RSI values, the last of which is the
  current one; 50 when the window's maximum equals its minimum.
\<close>

definition stoch_k_value :: "real list \<Rightarrow> real" where
  "stoch_k_value w =
     (let lo = Min (set w); hi = Max (set w)
      in if hi - lo = 0 then 50 else 100 * (last w - lo) / (hi - lo))"

text \<open>Modelled from the spec: the \<open>%K\<close> series of 4.3, from index \<open>L - 1\<close> of the RSI series on.\<close>

definition stoch_K :: "RsiDataPoint list \<Rightarrow> RsiDataPoint list" where
  "stoch_K xs =
     map (\<lambda>i. \<lparr>dp_time = dp_time (xs ! (i + lookback_L - 1)),
               dp_value = stoch_k_value (map dp_value (take lookback_L (drop i xs)))\<rparr>)
       [0 ..< length xs + 1 - lookback_L]"

text \<open>Modelled from the spec: the \<open>%D\<close> series of 4.3.\<close>

definition stoch_D :: "RsiDataPoint list \<Rightarrow> RsiDataPoint list" where
  "stoch_D xs = trailing_sma smoothing_S (stoch_K xs)"

section \<open>The Volume Profile Builder (spec 4.4)\<close>

text \<open>
  The result type \<^verbatim>\<open>VolumeProfileData\<close> is declared in types.ts; the function that builds it,
  \<^verbatim>\<open>calculateVolumeProfile\<close> of \<^verbatim>\<open>services/volumeProfileService\<close>, is not among the sources
  (only its call in PriceDetailModal.tsx is), so it is modelled from section 4.4 of the spec,
  over exact reals.
\<close>

record VolumeBucket =
  b_price :: real
  b_volume :: real
  b_buyVolume :: real
  b_sellVolume :: real

record VolumeProfileData =
  vp_profile :: "VolumeBucket list"
  vp_poc :: real
  vp_vah :: real
  vp_val :: real
  vp_maxVolume :: real
  vp_minPrice :: real
  vp_maxPrice :: real

text \<open>
  Modelled from the spec: the invariant of a normalized \<open>Candle\<close> (section 3) that the builder
  relies on; the Candle Normalizer that establishes it is not among the sources.
\<close>

definition candle_ok :: "PriceDataPoint \<Rightarrow> bool" where
  "candle_ok c \<longleftrightarrow>
     k_low c \<le> k_open c \<and> k_open c \<le> k_high c \<and> k_low c \<le> k_close c \<and> k_close c \<le> k_high c
     \<and> 0 \<le> k_takerBuyVolume c \<and> k_takerBuyVolume c \<le> k_volume c"

text \<open>
  Modelled from the spec: step 2 of 4.4, \<open>resolution\<close> empty buckets of equal width over
  \<open>[priceMin, priceMax]\<close>, each at the midpoint of its interval.
\<close>

definition empty_buckets :: "real \<Rightarrow> real \<Rightarrow> nat \<Rightarrow> VolumeBucket list" where
  "empty_buckets priceMin width resolution =
     map (\<lambda>i. \<lparr>b_price = priceMin + (real i + 1 / 2) * width,
               b_volume = 0, b_buyVolume = 0, b_sellVolume = 0\<rparr>) [0 ..< resolution]"

text \<open>
  Modelled from the spec: step 3 of 4.4, the index of the bucket containing a price. Bucket
  \<open>i\<close> is the interval from \<open>priceMin + i * width\<close> up to, not including, the next bound,
  and the last bucket includes \<open>priceMax\<close>.
\<close>

definition bucket_index :: "real \<Rightarrow> real \<Rightarrow> nat \<Rightarrow> real \<Rightarrow> nat" where
  "bucket_index priceMin width resolution p =
     min (resolution - 1) (nat \<lfloor>(p - priceMin) / width\<rfloor>)"

text \<open>
  Modelled from the spec: steps 3 and 4 of 4.4 for one candle, whose whole volume goes to the
  bucket of its close, the taker-buy volume as buy volume and the rest as sell volume.
\<close>

definition add_candle ::
  "real \<Rightarrow> real \<Rightarrow> nat \<Rightarrow> VolumeBucket list \<Rightarrow> PriceDataPoint \<Rightarrow> VolumeBucket list" where
  "add_candle priceMin width resolution buckets c =
     (let i = bucket_index priceMin width resolution (k_close c); b = buckets ! i
      in buckets[i := b\<lparr>b_volume := b_volume b + k_volume c,
                        b_buyVolume := b_buyVolume b + k_takerBuyVolume c,
                        b_sellVolume := b_sellVolume b + (k_volume c - k_takerBuyVolume c)\<rparr>])"

text \<open>Modelled from the spec: steps 3 and 4 of 4.4 over every candle of the window, in order.\<close>

fun fill_buckets ::
  "real \<Rightarrow> real \<Rightarrow> nat \<Rightarrow> VolumeBucket list \<Rightarrow> PriceDataPoint list \<Rightarrow> VolumeBucket list" where
  "fill_buckets priceMin width resolution buckets [] = buckets"
| "fill_buckets priceMin width resolution buckets (c # cs) =
     fill_buckets priceMin width resolution (add_candle priceMin width resolution buckets c) cs"

text \<open>
  Modelled from the spec: step 5 of 4.4, the index of the bucket of maximum volume, the lowest
  one on a tie.
\<close>

definition poc_index :: "real list \<Rightarrow> nat" where
  "poc_index vols = length (takeWhile (\<lambda>v. v \<noteq> Max (set vols)) vols)"

text \<open>
  Modelled from the spec: step 6 of 4.4, the expansion of the index range \<open>[lo, hi]\<close> from the
  POC bucket until the accumulated volume reaches the target or both ends are exhausted; of the
  two neighbours the one of greater volume is taken, the lower one on a tie.
\<close>

function value_area :: "real list \<Rightarrow> real \<Rightarrow> nat \<Rightarrow> nat \<Rightarrow> real \<Rightarrow> nat \<times> nat" where
  "value_area vols target lo hi acc =
     (if acc \<ge> target \<or> (lo = 0 \<and> length vols \<le> hi + 1) then (lo, hi)
      else if lo = 0 then value_area vols target lo (hi + 1) (acc + vols ! (hi + 1))
      else if length vols \<le> hi + 1 then value_area vols target (lo - 1) hi (acc + vols ! (lo - 1))
      else if vols ! (hi + 1) > vols ! (lo - 1)
        then value_area vols target lo (hi + 1) (acc + vols ! (hi + 1))
      else value_area vols target (lo - 1) hi (acc + vols ! (lo - 1)))"
  by pat_completeness auto
termination
  by (relation "measure (\<lambda>(vols, target, lo, hi, acc). lo + (length vols - hi))") auto

declare value_area.simps [simp del]

text \<open>
  Modelled from the spec: \<open>build\<close> of 4.4. It fails with \<open>InsufficientData\<close> on fewer than two
  candles and on a window of zero price range; otherwise the profile has the filled buckets, the
  levels of the POC bucket and of the two ends of the value area (70 percent of the total
  volume), the POC bucket's volume, and the price range.
\<close>

definition build :: "PriceDataPoint list \<Rightarrow> nat \<Rightarrow> engine_error + VolumeProfileData" where
  "build candles resolution =
     (if length candles < 2 then Inl InsufficientData
      else
        let priceMin = Min (set (map k_low candles));
            priceMax = Max (set (map k_high candles))
        in if priceMax = priceMin then Inl InsufficientData
           else
             let width = (priceMax - priceMin) / real resolution;
                 buckets = fill_buckets priceMin width resolution
                             (empty_buckets priceMin width resolution) candles;
                 vols = map b_volume buckets;
                 pocIdx = poc_index vols;
                 area = value_area vols (0.7 * sum_list vols) pocIdx pocIdx (vols ! pocIdx)
             in Inr \<lparr>vp_profile = buckets,
                     vp_poc = b_price (buckets ! pocIdx),
                     vp_vah = b_price (buckets ! snd area),
                     vp_val = b_price (buckets ! fst area),
                     vp_maxVolume = b_volume (buckets ! pocIdx),
                     vp_minPrice = priceMin,
                     vp_maxPrice = priceMax\<rparr>)"

text \<open>
  The one use of the builder among the sources, the memo \<^verbatim>\<open>volumeProfileData\<close> of
  PriceDetailModal.tsx: nothing for missing or empty klines, otherwise the result of
  \<^verbatim>\<open>calculateVolumeProfile(data.klines, 100)\<close>, the absent function being a parameter here.
\<close>

definition volumeProfileData ::
  "(PriceDataPoint list \<Rightarrow> nat \<Rightarrow> 'a option) \<Rightarrow> SymbolData option \<Rightarrow> 'a option" where
  "volumeProfileData calculateVolumeProfile data =
     (case data of
        None \<Rightarrow> None
      | Some d \<Rightarrow> if length (klines d) = 0 then None else calculateVolumeProfile (klines d) 100)"

section \<open>Sample inputs\<close>

text \<open>Candles with the given closes, one time unit apart, each of unit volume and zero range.\<close>

definition candles_of_closes :: "real list \<Rightarrow> PriceDataPoint list" where
  "candles_of_closes closes =
     map (\<lambda>(i, c). \<lparr>k_time = int i, k_open = c, k_high = c, k_low = c, k_close = c,
                     k_volume = 1, k_takerBuyVolume = 0\<rparr>) (enumerate 0 closes)"

text \<open>A window of three normalized candles over the price range from 10 to 18.\<close>

definition sample_window :: "PriceDataPoint list" where
  "sample_window =
     [\<lparr>k_time = 0, k_open = 10, k_high = 14, k_low = 10, k_close = 11, k_volume = 5,
       k_takerBuyVolume = 2\<rparr>,
      \<lparr>k_time = 1, k_open = 12, k_high = 18, k_low = 12, k_close = 17, k_volume = 3,
       k_takerBuyVolume = 1\<rparr>,
      \<lparr>k_time = 2, k_open = 15, k_high = 15, k_low = 11, k_close = 13, k_volume = 4,
       k_takerBuyVolume = 4\<rparr>]"

section \<open>The alert effect: guard and key set\<close>

lemma allowed_timeframes_iff:
  "tf \<in> set ALLOWED_TIMEFRAMES_FOR_ALERTS \<longleftrightarrow> tf \<noteq> TF_1m \<and> tf \<noteq> TF_3m"
  by (cases tf) (simp_all add: ALLOWED_TIMEFRAMES_FOR_ALERTS_def)

lemma alertKey_inj: "alertKey s tf = alertKey s' tf \<longleftrightarrow> s = s'"
  by (simp add: alertKey_def)

lemma body_keys: "fst ` set (snd acc) \<subseteq> fst ` set (snd (alert_body tf sd st s acc))"
  by (cases acc) (auto simp: alert_body_def Let_def dom_update split: option.splits)

lemma forEach_keys: "fst ` set (snd acc) \<subseteq> fst ` set (snd (alert_forEach tf sd st ks acc))"
proof (induction ks arbitrary: acc)
  case Nil show ?case by simp
next
  case (Cons k ks)
  have "fst ` set (snd acc) \<subseteq> fst ` set (snd (alert_body tf sd st k acc))" by (rule body_keys)
  also have "\<dots> \<subseteq> fst ` set (snd (alert_forEach tf sd st ks (alert_body tf sd st k acc)))"
    by (rule Cons.IH)
  finally show ?case by simp
qed

lemma effect_snd:
  "snd (rsi_alert_effect en tf sd st) =
     (if \<not> en \<or> tf \<notin> set ALLOWED_TIMEFRAMES_FOR_ALERTS \<or> sd = [] then st
      else snd (alert_forEach tf sd st (map fst sd) ([], st)))"
  by (simp add: rsi_alert_effect_def split: prod.splits)

lemma effect_fst:
  "fst (rsi_alert_effect en tf sd st) =
     (if \<not> en \<or> tf \<notin> set ALLOWED_TIMEFRAMES_FOR_ALERTS \<or> sd = [] then []
      else fst (alert_forEach tf sd st (map fst sd) ([], st)))"
  by (simp add: rsi_alert_effect_def split: prod.splits)

lemma effect_keys: "fst ` set st \<subseteq> fst ` set (snd (rsi_alert_effect en tf sd st))"
  using forEach_keys [of "([], st)" tf sd st "map fst sd"] by (simp add: effect_snd)

lemma run_snd_Cons:
  "snd (run_refreshes st ((en, tf, sd) # rs)) = snd (run_refreshes (snd (rsi_alert_effect en tf sd st)) rs)"
  by (simp split: prod.splits)

lemma run_keys: "fst ` set st \<subseteq> fst ` set (snd (run_refreshes st rs))"
proof (induction rs arbitrary: st)
  case Nil show ?case by simp
next
  case (Cons r rs)
  obtain en tf sd where r: "r = (en, tf, sd)" by (cases r) auto
  have "fst ` set st \<subseteq> fst ` set (snd (rsi_alert_effect en tf sd st))" by (rule effect_keys)
  also have "\<dots> \<subseteq> fst ` set (snd (run_refreshes (snd (rsi_alert_effect en tf sd st)) rs))"
    by (rule Cons.IH)
  finally show ?case unfolding r run_snd_Cons .
qed

lemma body_other_state:
  "s \<noteq> s' \<Longrightarrow> map_of (snd (alert_body tf sd st s acc)) (alertKey s' tf) = map_of (snd acc) (alertKey s' tf)"
  by (cases acc) (auto simp: alert_body_def Let_def update_conv' alertKey_inj split: option.splits)

lemma body_other_events:
  "s \<noteq> s' \<Longrightarrow> filter (\<lambda>e. n_symbol e = s') (fst (alert_body tf sd st s acc)) = filter (\<lambda>e. n_symbol e = s') (fst acc)"
  by (cases acc) (auto simp: alert_body_def Let_def split: option.splits)

lemma body_self:
  assumes "map_of sd s = Some d" "rsi d \<noteq> []"
  shows "alert_body tf sd st s (evs, new) =
     (evs @ events_of s tf (previousStatus st (alertKey s tf)) (dp_value (last (rsi d))),
      AList.update (alertKey s tf) (status_of (dp_value (last (rsi d)))) new)"
  using assms
  by (simp add: alert_body_def Let_def events_of_def status_of_def overboughtThreshold_def oversoldThreshold_def)

lemma forEach_other_state:
  "s' \<notin> set ks \<Longrightarrow> map_of (snd (alert_forEach tf sd st ks acc)) (alertKey s' tf) = map_of (snd acc) (alertKey s' tf)"
  by (induction ks arbitrary: acc) (auto simp: body_other_state)

lemma forEach_other_events:
  "s' \<notin> set ks \<Longrightarrow> filter (\<lambda>e. n_symbol e = s') (fst (alert_forEach tf sd st ks acc)) = filter (\<lambda>e. n_symbol e = s') (fst acc)"
  by (induction ks arbitrary: acc) (auto simp: body_other_events)

lemma events_of_symbol: "filter (\<lambda>e. n_symbol e = s) (events_of s tf p r) = events_of s tf p r"
  by (simp add: events_of_def)

lemma forEach_self:
  assumes "map_of sd s = Some d" "rsi d \<noteq> []" "distinct ks" "s \<in> set ks"
  shows "map_of (snd (alert_forEach tf sd st ks acc)) (alertKey s tf) = Some (status_of (dp_value (last (rsi d))))
    \<and> filter (\<lambda>e. n_symbol e = s) (fst (alert_forEach tf sd st ks acc)) =
        filter (\<lambda>e. n_symbol e = s) (fst acc) @ events_of s tf (previousStatus st (alertKey s tf)) (dp_value (last (rsi d)))"
  using assms(3,4)
proof (induction ks arbitrary: acc)
  case Nil then show ?case by simp
next
  case (Cons k ks)
  obtain evs new where acc: "acc = (evs, new)" by (cases acc)
  show ?case
  proof (cases "k = s")
    case True
    then have "s \<notin> set ks" using Cons.prems by simp
    then show ?thesis using True
      by (simp add: forEach_other_state forEach_other_events acc body_self [OF assms(1,2)] update_conv' events_of_symbol)
  next
    case False
    then have "distinct ks" "s \<in> set ks" using Cons.prems by auto
    from Cons.IH [OF this] show ?thesis using False
      by (simp add: body_other_events)
  qed
qed

lemma effect_distinct_body:
  "distinct (map fst (snd acc)) \<Longrightarrow> distinct (map fst (snd (alert_body tf sd st s acc)))"
  by (cases acc) (auto simp: alert_body_def Let_def distinct_update split: option.splits)

lemma forEach_distinct:
  "distinct (map fst (snd acc)) \<Longrightarrow> distinct (map fst (snd (alert_forEach tf sd st ks acc)))"
  by (induction ks arbitrary: acc) (auto simp: effect_distinct_body)

lemma effect_distinct:
  "distinct (map fst st) \<Longrightarrow> distinct (map fst (snd (rsi_alert_effect en tf sd st)))"
  using forEach_distinct [of "([], st)" tf sd st "map fst sd"] by (simp add: effect_snd)

lemma effect_key_created:
  assumes "en" "tf \<in> set ALLOWED_TIMEFRAMES_FOR_ALERTS" "map_of sd s = Some d" "rsi d \<noteq> []"
  shows "map_of (snd (rsi_alert_effect en tf sd st)) (alertKey s tf)
           = Some (status_of (dp_value (last (rsi d))))"
proof -
  have "s \<in> set (map fst sd)" using assms(3) by (metis map_of_eq_None_iff option.distinct(1) set_map)
  then obtain ks1 ks2 where ks: "map fst sd = ks1 @ s # ks2" "s \<notin> set ks2"
    by (meson split_list_last)
  have ne: "sd \<noteq> []" using assms(3) by auto
  obtain evs new where acc: "alert_forEach tf sd st ks1 ([], st) = (evs, new)" by (cases "alert_forEach tf sd st ks1 ([], st)")
  have app: "\<And>xs ys acc. alert_forEach tf sd st (xs @ ys) acc = alert_forEach tf sd st ys (alert_forEach tf sd st xs acc)"
    subgoal for xs ys acc by (induction xs arbitrary: acc) auto done
  show ?thesis using assms(1,2) ne
    by (simp add: effect_snd ks app acc forEach_other_state [OF ks(2)] body_self [OF assms(3,4)] update_conv')
qed

text \<open>
  Claim C10. The two timeframes missing from the allowed list are exactly 1m and 3m; and when
  alerts are disabled, or the timeframe is 1m or 3m, or the symbol data object has no key, a run
  of the effect sends no notification and leaves the alert state as it was, whatever the RSI
  values are.
\<close>

theorem alerts_guarded:
  "(timeframe \<notin> set ALLOWED_TIMEFRAMES_FOR_ALERTS \<longleftrightarrow> timeframe = TF_1m \<or> timeframe = TF_3m) \<and>
   (\<not> areAlertsEnabled \<or> timeframe = TF_1m \<or> timeframe = TF_3m \<or> symbolsData = [] \<longrightarrow>
      rsi_alert_effect areAlertsEnabled timeframe symbolsData lastAlertedRsiStatus
        = ([], lastAlertedRsiStatus))"
proof -
  have 1: "timeframe \<notin> set ALLOWED_TIMEFRAMES_FOR_ALERTS \<longleftrightarrow> timeframe = TF_1m \<or> timeframe = TF_3m"
    by (simp add: allowed_timeframes_iff)
  have 2: "rsi_alert_effect areAlertsEnabled timeframe symbolsData lastAlertedRsiStatus
        = ([], lastAlertedRsiStatus)"
    if "\<not> areAlertsEnabled \<or> timeframe = TF_1m \<or> timeframe = TF_3m \<or> symbolsData = []"
    using that 1 unfolding rsi_alert_effect_def by auto
  show ?thesis using 1 2 by blast
qed

text \<open>A symbol at RSI 80 on the 1m timeframe, and the same symbol with alerts disabled.\<close>

theorem alerts_guarded_witness:
  "latest_rsi (symbol_with_rsi [55, 80]) = Some 80 \<and>
   rsi_alert_effect True TF_1m [(''BTCUSDT'', symbol_with_rsi [55, 80])] [(''ETHUSDT-1m'', Oversold)]
     = ([], [(''ETHUSDT-1m'', Oversold)]) \<and>
   rsi_alert_effect False TF_15m [(''BTCUSDT'', symbol_with_rsi [55, 80])] [] = ([], [])"
  using alerts_guarded [of TF_1m True "[(''BTCUSDT'', symbol_with_rsi [55, 80])]" "[(''ETHUSDT-1m'', Oversold)]"]
        alerts_guarded [of TF_15m False "[(''BTCUSDT'', symbol_with_rsi [55, 80])]" "[]"]
  by (simp add: latest_rsi_def symbol_with_rsi_def)

lemma body_frame:
  "k \<noteq> alertKey s tf \<Longrightarrow> map_of (snd (alert_body tf sd st s acc)) k = map_of (snd acc) k"
  by (cases acc) (auto simp: alert_body_def Let_def update_conv' split: option.splits)

lemma forEach_frame:
  "k \<notin> (\<lambda>s. alertKey s tf) ` set ks \<Longrightarrow>
   map_of (snd (alert_forEach tf sd st ks acc)) k = map_of (snd acc) k"
  by (induction ks arbitrary: acc) (auto simp: body_frame)

lemma effect_frame:
  "k \<notin> (\<lambda>s. alertKey s tf) ` fst ` set sd \<Longrightarrow>
   map_of (snd (rsi_alert_effect en tf sd st)) k = map_of st k"
  using forEach_frame [of k tf "map fst sd" sd st "([], st)"] by (simp add: effect_snd)

text \<open>
  Claim C8. Every key of the alert state is still a key after one run of the effect, and after
  any sequence of runs, and keys stay unique. A run that evaluates a symbol with a non-empty RSI
  series (alerts enabled, on an allowed timeframe) leaves an entry for its key whose value is
  the status of the latest RSI value: the entry is created if the key had none and overwritten
  if it had one. The entry of every key that is not the key of a symbol of this run keeps its
  value.
\<close>

theorem alert_keys_never_deleted:
  "fst ` set st \<subseteq> fst ` set (snd (rsi_alert_effect en tf sd st)) \<and>
   fst ` set st \<subseteq> fst ` set (snd (run_refreshes st refreshes)) \<and>
   (distinct (map fst st) \<longrightarrow> distinct (map fst (snd (rsi_alert_effect en tf sd st)))) \<and>
   (en \<and> tf \<in> set ALLOWED_TIMEFRAMES_FOR_ALERTS \<and> map_of sd symbol = Some d \<and> rsi d \<noteq> [] \<longrightarrow>
      alertKey symbol tf \<in> fst ` set (snd (rsi_alert_effect en tf sd st)) \<and>
      map_of (snd (rsi_alert_effect en tf sd st)) (alertKey symbol tf) =
        Some (if dp_value (last (rsi d)) \<ge> 70 then Overbought
              else if dp_value (last (rsi d)) \<le> 30 then Oversold else Neutral)) \<and>
   (k \<notin> (\<lambda>s. alertKey s tf) ` fst ` set sd \<longrightarrow>
      map_of (snd (rsi_alert_effect en tf sd st)) k = map_of st k)"
proof (intro conjI impI)
  show "fst ` set st \<subseteq> fst ` set (snd (rsi_alert_effect en tf sd st))" by (rule effect_keys)
  show "fst ` set st \<subseteq> fst ` set (snd (run_refreshes st refreshes))" by (rule run_keys)
  show "distinct (map fst (snd (rsi_alert_effect en tf sd st)))" if "distinct (map fst st)"
    using that by (rule effect_distinct)
  show "map_of (snd (rsi_alert_effect en tf sd st)) k = map_of st k"
    if "k \<notin> (\<lambda>s. alertKey s tf) ` fst ` set sd"
    using that by (rule effect_frame)
next
  assume h: "en \<and> tf \<in> set ALLOWED_TIMEFRAMES_FOR_ALERTS \<and> map_of sd symbol = Some d \<and> rsi d \<noteq> []"
  have v: "map_of (snd (rsi_alert_effect en tf sd st)) (alertKey symbol tf)
             = Some (status_of (dp_value (last (rsi d))))"
    using effect_key_created [of en tf sd symbol d st] h by simp
  then have "map_of (snd (rsi_alert_effect en tf sd st)) (alertKey symbol tf) \<noteq> None" by simp
  then show "alertKey symbol tf \<in> fst ` set (snd (rsi_alert_effect en tf sd st))"
    by (simp add: map_of_eq_None_iff)
  show "map_of (snd (rsi_alert_effect en tf sd st)) (alertKey symbol tf) =
        Some (if dp_value (last (rsi d)) \<ge> 70 then Overbought
              else if dp_value (last (rsi d)) \<le> 30 then Oversold else Neutral)"
    using v by (simp add: status_of_def)
qed

text \<open>
  One refresh on 15m that observes BTCUSDT at 80 and SOLUSDT at 50, from a state in which
  BTCUSDT and ETHUSDT are oversold: the BTCUSDT entry is overwritten with overbought, the
  SOLUSDT entry is created as neutral, and the ETHUSDT entry stays as it was.
\<close>

theorem alert_keys_never_deleted_witness:
  "snd (rsi_alert_effect True TF_15m
          [(''BTCUSDT'', symbol_with_rsi [55, 80]), (''SOLUSDT'', symbol_with_rsi [50])]
          [(''BTCUSDT-15m'', Oversold), (''ETHUSDT-15m'', Oversold)])
     = [(''BTCUSDT-15m'', Overbought), (''ETHUSDT-15m'', Oversold), (''SOLUSDT-15m'', Neutral)] \<and>
   map_of (snd (rsi_alert_effect True TF_15m
          [(''BTCUSDT'', symbol_with_rsi [55, 80]), (''SOLUSDT'', symbol_with_rsi [50])]
          [(''BTCUSDT-15m'', Oversold), (''ETHUSDT-15m'', Oversold)])) (alertKey ''BTCUSDT'' TF_15m)
     = Some Overbought \<and>
   map_of (snd (rsi_alert_effect True TF_15m
          [(''BTCUSDT'', symbol_with_rsi [55, 80]), (''SOLUSDT'', symbol_with_rsi [50])]
          [(''BTCUSDT-15m'', Oversold), (''ETHUSDT-15m'', Oversold)])) (alertKey ''SOLUSDT'' TF_15m)
     = Some Neutral \<and>
   map_of (snd (rsi_alert_effect True TF_15m
          [(''BTCUSDT'', symbol_with_rsi [55, 80]), (''SOLUSDT'', symbol_with_rsi [50])]
          [(''BTCUSDT-15m'', Oversold), (''ETHUSDT-15m'', Oversold)])) ''ETHUSDT-15m''
     = Some Oversold \<and>
   distinct (map fst (snd (rsi_alert_effect True TF_15m
          [(''BTCUSDT'', symbol_with_rsi [55, 80]), (''SOLUSDT'', symbol_with_rsi [50])]
          [(''BTCUSDT-15m'', Oversold), (''ETHUSDT-15m'', Oversold)])))"
proof -
  let ?sd = "[(''BTCUSDT'', symbol_with_rsi [55, 80]), (''SOLUSDT'', symbol_with_rsi [50])]"
  let ?st = "[(''BTCUSDT-15m'', Oversold), (''ETHUSDT-15m'', Oversold)]"
  let ?new = "snd (rsi_alert_effect True TF_15m ?sd ?st)"
  have tf: "TF_15m \<in> set ALLOWED_TIMEFRAMES_FOR_ALERTS"
    by (simp add: ALLOWED_TIMEFRAMES_FOR_ALERTS_def)
  have run: "?new = [(''BTCUSDT-15m'', Overbought), (''ETHUSDT-15m'', Oversold),
                     (''SOLUSDT-15m'', Neutral)]"
    by (simp add: rsi_alert_effect_def ALLOWED_TIMEFRAMES_FOR_ALERTS_def alert_body_def
          symbol_with_rsi_def alertKey_def previousStatus_def overboughtThreshold_def
          oversoldThreshold_def Let_def)
  have btc: "map_of ?new (alertKey ''BTCUSDT'' TF_15m) = Some Overbought"
    using alert_keys_never_deleted [where st = ?st and en = True and tf = TF_15m and sd = ?sd
            and symbol = "''BTCUSDT''" and d = "symbol_with_rsi [55, 80]"] tf
    by (simp add: symbol_with_rsi_def)
  have sol: "map_of ?new (alertKey ''SOLUSDT'' TF_15m) = Some Neutral"
    using alert_keys_never_deleted [where st = ?st and en = True and tf = TF_15m and sd = ?sd
            and symbol = "''SOLUSDT''" and d = "symbol_with_rsi [50]"] tf
    by (simp add: symbol_with_rsi_def)
  have eth: "map_of ?new ''ETHUSDT-15m'' = Some Oversold"
    using alert_keys_never_deleted [where st = ?st and en = True and tf = TF_15m and sd = ?sd
            and k = "''ETHUSDT-15m''"]
    by (simp add: alertKey_def)
  have dist: "distinct (map fst ?new)"
    using alert_keys_never_deleted [where st = ?st and en = True and tf = TF_15m and sd = ?sd]
    by simp
  show ?thesis by (intro conjI run btc sol eth dist)
qed

section \<open>The transition rule\<close>

lemma effect_events_self:
  assumes "en" "tf \<in> set ALLOWED_TIMEFRAMES_FOR_ALERTS" "distinct (map fst sd)"
    "map_of sd s = Some d" "rsi d \<noteq> []"
  shows "filter (\<lambda>e. n_symbol e = s) (fst (rsi_alert_effect en tf sd st))
           = events_of s tf (previousStatus st (alertKey s tf)) (dp_value (last (rsi d)))"
proof -
  have mem: "s \<in> set (map fst sd)"
    using assms(4) by (metis map_of_eq_None_iff option.distinct(1) set_map)
  then have ne: "sd \<noteq> []" by auto
  from forEach_self [OF assms(4,5,3) mem, of tf st "([], st)"] show ?thesis
    using assms(1,2) ne by (simp add: effect_fst)
qed

text \<open>
  Claim C1, as amended. When alerts are enabled, the timeframe is one of the ten allowed ones
  and the symbol has a non-empty RSI series with latest value \<open>r\<close>, one run of the effect
  sets the state of the key to overbought when \<open>r \<ge> 70\<close>, notifying overbought exactly when
  the previous state was not overbought; to oversold when \<open>r \<le> 30\<close>, notifying oversold exactly
  when the previous state was not oversold; and to neutral otherwise, with no notification for
  the symbol. The previous state of a key that has no entry is neutral.
\<close>

theorem transition_rule_when_evaluated:
  assumes "areAlertsEnabled" and "timeframe \<in> set ALLOWED_TIMEFRAMES_FOR_ALERTS"
    and "distinct (map fst symbolsData)"
    and "map_of symbolsData symbol = Some d" and "rsi d \<noteq> []"
    and "r = dp_value (last (rsi d))"
    and "prev = (case map_of st (alertKey symbol timeframe) of None \<Rightarrow> Neutral | Some p \<Rightarrow> p)"
    and "rsi_alert_effect areAlertsEnabled timeframe symbolsData st = (events, st')"
  shows "(r \<ge> 70 \<longrightarrow>
            map_of st' (alertKey symbol timeframe) = Some Overbought \<and>
            filter (\<lambda>e. n_symbol e = symbol) events =
              (if prev \<noteq> Overbought
               then [\<lparr>n_symbol = symbol, n_timeframe = timeframe, n_rsi = r, n_type = N_overbought\<rparr>]
               else [])) \<and>
         (r \<le> 30 \<longrightarrow>
            map_of st' (alertKey symbol timeframe) = Some Oversold \<and>
            filter (\<lambda>e. n_symbol e = symbol) events =
              (if prev \<noteq> Oversold
               then [\<lparr>n_symbol = symbol, n_timeframe = timeframe, n_rsi = r, n_type = N_oversold\<rparr>]
               else [])) \<and>
         (30 < r \<and> r < 70 \<longrightarrow>
            map_of st' (alertKey symbol timeframe) = Some Neutral \<and>
            filter (\<lambda>e. n_symbol e = symbol) events = []) \<and>
         (alertKey symbol timeframe \<notin> fst ` set st \<longrightarrow> prev = Neutral)"
proof -
  have st: "map_of st' (alertKey symbol timeframe) = Some (status_of r)"
    using effect_key_created [OF assms(1,2,4,5), of st] assms(6,8) by simp
  have prev: "prev = previousStatus st (alertKey symbol timeframe)"
    using assms(7) by (simp add: previousStatus_def)
  have ev: "filter (\<lambda>e. n_symbol e = symbol) events = events_of symbol timeframe prev r"
    using effect_events_self [OF assms(1,2,3,4,5), of st] assms(6,8) prev by simp
  have new: "alertKey symbol timeframe \<notin> fst ` set st \<longrightarrow> prev = Neutral"
  proof
    assume "alertKey symbol timeframe \<notin> fst ` set st"
    then have "map_of st (alertKey symbol timeframe) = None" by (simp add: map_of_eq_None_iff)
    then show "prev = Neutral" using assms(7) by simp
  qed
  show ?thesis using st ev new by (simp add: status_of_def events_of_def)
qed

text \<open>BTCUSDT crossing from 65 to 72 on 15m, beside ETHUSDT staying oversold.\<close>

theorem transition_rule_when_evaluated_witness:
  "rsi_alert_effect True TF_15m
       [(''BTCUSDT'', symbol_with_rsi [65, 72]), (''ETHUSDT'', symbol_with_rsi [28])]
       [(''ETHUSDT-15m'', Oversold)]
     = ([\<lparr>n_symbol = ''BTCUSDT'', n_timeframe = TF_15m, n_rsi = 72, n_type = N_overbought\<rparr>],
        [(''ETHUSDT-15m'', Oversold), (''BTCUSDT-15m'', Overbought)]) \<and>
   map_of [(''ETHUSDT-15m'', Oversold), (''BTCUSDT-15m'', Overbought)] (alertKey ''BTCUSDT'' TF_15m)
     = Some Overbought"
proof -
  let ?sd = "[(''BTCUSDT'', symbol_with_rsi [65, 72]), (''ETHUSDT'', symbol_with_rsi [28])]"
  let ?st = "[(''ETHUSDT-15m'', Oversold)]"
  have run: "rsi_alert_effect True TF_15m ?sd ?st
     = ([\<lparr>n_symbol = ''BTCUSDT'', n_timeframe = TF_15m, n_rsi = 72, n_type = N_overbought\<rparr>],
        [(''ETHUSDT-15m'', Oversold), (''BTCUSDT-15m'', Overbought)])"
    by (simp add: rsi_alert_effect_def ALLOWED_TIMEFRAMES_FOR_ALERTS_def alert_body_def
          symbol_with_rsi_def alertKey_def previousStatus_def overboughtThreshold_def
          oversoldThreshold_def Let_def)
  have "map_of [(''ETHUSDT-15m'', Oversold), (''BTCUSDT-15m'', Overbought)] (alertKey ''BTCUSDT'' TF_15m)
          = Some Overbought"
    using transition_rule_when_evaluated [of True TF_15m ?sd "''BTCUSDT''" "symbol_with_rsi [65, 72]"
            72 Neutral ?st _ _, OF _ _ _ _ _ _ _ run]
    by (simp add: ALLOWED_TIMEFRAMES_FOR_ALERTS_def symbol_with_rsi_def alertKey_def)
  with run show ?thesis by simp
qed

text \<open>
  The rule does not hold for every key: on the 1m timeframe a latest RSI of 80 neither sets the
  state to overbought nor sends a notification, and with alerts disabled the same holds on 15m.
\<close>

theorem transition_rule_counterexample:
  "latest_rsi (symbol_with_rsi [65, 80]) = Some 80 \<and>
   rsi_alert_effect True TF_1m [(''BTCUSDT'', symbol_with_rsi [65, 80])] [] = ([], []) \<and>
   map_of (snd (rsi_alert_effect True TF_1m [(''BTCUSDT'', symbol_with_rsi [65, 80])] []))
     (alertKey ''BTCUSDT'' TF_1m) \<noteq> Some Overbought \<and>
   rsi_alert_effect False TF_15m [(''BTCUSDT'', symbol_with_rsi [65, 80])] [] = ([], []) \<and>
   map_of (snd (rsi_alert_effect False TF_15m [(''BTCUSDT'', symbol_with_rsi [65, 80])] []))
     (alertKey ''BTCUSDT'' TF_15m) \<noteq> Some Overbought"
  by (simp add: rsi_alert_effect_def ALLOWED_TIMEFRAMES_FOR_ALERTS_def latest_rsi_def
        symbol_with_rsi_def)

section \<open>Edge triggering on a trace\<close>

lemma effect_single:
  assumes "tf \<in> set ALLOWED_TIMEFRAMES_FOR_ALERTS" "latest_rsi d = Some r"
  shows "rsi_alert_effect True tf [(s, d)] st
           = (events_of s tf (previousStatus st (alertKey s tf)) r,
              AList.update (alertKey s tf) (status_of r) st)"
proof -
  have d: "rsi d \<noteq> []" "dp_value (last (rsi d)) = r"
    using assms(2) by (auto simp: latest_rsi_def split: if_splits)
  have m: "map_of [(s, d)] s = Some d" by simp
  show ?thesis using assms(1) d(2)
    by (simp add: rsi_alert_effect_def body_self [OF m d(1)])
qed

text \<open>
  The effect runs again whenever the state it has just set changes, with the same symbol data.
  That second run sends nothing and sets nothing, so a refresh is one effective step.
\<close>

lemma forEach_fixed:
  "(\<And>s. s \<in> set ks \<Longrightarrow> alert_body tf sd old s acc = acc) \<Longrightarrow> alert_forEach tf sd old ks acc = acc"
  by (induction ks) simp_all

lemma events_of_settled: "events_of s tf (status_of r) r = []"
  by (simp add: events_of_def status_of_def)

lemma effect_rerun:
  assumes "rsi_alert_effect en tf sd st = (evs, st')"
  shows "rsi_alert_effect en tf sd st' = ([], st')"
proof (cases "en \<and> tf \<in> set ALLOWED_TIMEFRAMES_FOR_ALERTS \<and> sd \<noteq> []")
  case False
  then show ?thesis by (auto simp: rsi_alert_effect_def)
next
  case True
  have st': "st' = snd (rsi_alert_effect en tf sd st)" using assms by simp
  have "alert_body tf sd st' s ([], st') = ([], st')" for s
  proof (cases "map_of sd s")
    case None
    then show ?thesis by (simp add: alert_body_def)
  next
    case (Some d)
    show ?thesis
    proof (cases "rsi d = []")
      case True
      then show ?thesis using Some by (simp add: alert_body_def)
    next
      case False
      have k: "map_of st' (alertKey s tf) = Some (status_of (dp_value (last (rsi d))))"
        unfolding st' using True Some False by (intro effect_key_created) simp_all
      then have "previousStatus st' (alertKey s tf) = status_of (dp_value (last (rsi d)))"
        by (simp add: previousStatus_def)
      then show ?thesis
        using k by (simp add: body_self [OF Some False] events_of_settled update_triv)
    qed
  qed
  then have "alert_forEach tf sd st' (map fst sd) ([], st') = ([], st')"
    by (intro forEach_fixed)
  then show ?thesis using True by (simp add: rsi_alert_effect_def)
qed

text \<open>
  Claim C4. Five successive refreshes of one symbol on an allowed timeframe, starting from the
  empty alert state, whose latest RSI values are 65, 72, 75, 68 and 71, send exactly two
  notifications, both overbought: one at 72 and one at 71, none at 65, 75 or 68.
\<close>

theorem edge_triggered_trace:
  assumes "timeframe \<in> set ALLOWED_TIMEFRAMES_FOR_ALERTS"
    and "map latest_rsi ds = [Some 65, Some 72, Some 75, Some 68, Some 71]"
  shows "fst (run_refreshes [] (map (\<lambda>d. (True, timeframe, [(symbol, d)])) ds)) =
           [[],
            [\<lparr>n_symbol = symbol, n_timeframe = timeframe, n_rsi = 72, n_type = N_overbought\<rparr>],
            [],
            [],
            [\<lparr>n_symbol = symbol, n_timeframe = timeframe, n_rsi = 71, n_type = N_overbought\<rparr>]]"
proof -
  from assms(2) obtain d1 d2 d3 d4 d5 where ds: "ds = [d1, d2, d3, d4, d5]"
    and l: "latest_rsi d1 = Some 65" "latest_rsi d2 = Some 72" "latest_rsi d3 = Some 75"
      "latest_rsi d4 = Some 68" "latest_rsi d5 = Some 71"
    by (auto simp: map_eq_Cons_conv)
  note tf = assms(1)
  show ?thesis
    by (simp add: ds effect_single [OF tf l(1)] effect_single [OF tf l(2)]
          effect_single [OF tf l(3)] effect_single [OF tf l(4)] effect_single [OF tf l(5)]
          events_of_def status_of_def previousStatus_def)
qed

text \<open>The trace for BTCUSDT on 15m, the RSI series growing by one point per refresh.\<close>

theorem edge_triggered_trace_witness:
  "TF_15m \<in> set ALLOWED_TIMEFRAMES_FOR_ALERTS \<and>
   fst (run_refreshes []
          (map (\<lambda>d. (True, TF_15m, [(''BTCUSDT'', d)]))
             [symbol_with_rsi [65], symbol_with_rsi [65, 72], symbol_with_rsi [65, 72, 75],
              symbol_with_rsi [65, 72, 75, 68], symbol_with_rsi [65, 72, 75, 68, 71]])) =
     [[],
      [\<lparr>n_symbol = ''BTCUSDT'', n_timeframe = TF_15m, n_rsi = 72, n_type = N_overbought\<rparr>],
      [],
      [],
      [\<lparr>n_symbol = ''BTCUSDT'', n_timeframe = TF_15m, n_rsi = 71, n_type = N_overbought\<rparr>]]"
proof -
  have tf: "TF_15m \<in> set ALLOWED_TIMEFRAMES_FOR_ALERTS"
    by (simp add: ALLOWED_TIMEFRAMES_FOR_ALERTS_def)
  have l: "map latest_rsi
             [symbol_with_rsi [65], symbol_with_rsi [65, 72], symbol_with_rsi [65, 72, 75],
              symbol_with_rsi [65, 72, 75, 68], symbol_with_rsi [65, 72, 75, 68, 71]]
           = [Some 65, Some 72, Some 75, Some 68, Some 71]"
    by (simp add: latest_rsi_def symbol_with_rsi_def)
  show ?thesis using tf edge_triggered_trace [OF tf l, of "''BTCUSDT''"] by simp
qed

section \<open>The alert state is replaced in one step\<close>

lemma step_returned: "returned c \<Longrightarrow> effect_step tf sd old c = c"
  by (simp add: effect_step_def)

lemma steps_returned: "returned c \<Longrightarrow> (effect_step tf sd old ^^ n) c = c"
  by (induction n) (simp_all add: step_returned)

lemma steps_visit:
  "(effect_step tf sd old ^^ length ks)
      \<lparr>observable = ob, newAlertStatus = a, emitted = e, pending = ks @ rest, returned = False\<rparr>
   = \<lparr>observable = ob, newAlertStatus = snd (alert_forEach tf sd old ks (e, a)),
       emitted = fst (alert_forEach tf sd old ks (e, a)), pending = rest, returned = False\<rparr>"
proof (induction ks arbitrary: a e)
  case Nil
  show ?case by simp
next
  case (Cons k ks)
  obtain e' a' where b: "alert_body tf sd old k (e, a) = (e', a')"
    by (cases "alert_body tf sd old k (e, a)")
  have "effect_step tf sd old
          \<lparr>observable = ob, newAlertStatus = a, emitted = e, pending = (k # ks) @ rest, returned = False\<rparr>
        = \<lparr>observable = ob, newAlertStatus = a', emitted = e', pending = ks @ rest, returned = False\<rparr>"
    by (simp add: effect_step_def b)
  then show ?case using Cons.IH [of a' e'] by (simp add: funpow_swap1 b)
qed

lemma step_install:
  "effect_step tf sd old
      \<lparr>observable = old, newAlertStatus = a, emitted = e, pending = [], returned = False\<rparr>
   = \<lparr>observable = a, newAlertStatus = a, emitted = e, pending = [], returned = True\<rparr>"
  by (simp add: effect_step_def)

lemma effect_pair:
  "en \<Longrightarrow> tf \<in> set ALLOWED_TIMEFRAMES_FOR_ALERTS \<Longrightarrow> sd \<noteq> [] \<Longrightarrow>
   rsi_alert_effect en tf sd old = alert_forEach tf sd old (map fst sd) ([], old)"
  by (simp add: rsi_alert_effect_def split: prod.splits)

text \<open>
  Claim C7. At every program point of a run of the effect, the alert state an observer can read
  is the old map as long as the effect has not returned, and the complete new map (with all the
  notifications sent) once it has; the effect returns after visiting every key. No point of the
  run shows a map in which only some of the visited keys carry their new status.
\<close>

theorem alert_state_swapped_once:
  "(\<not> returned ((effect_step tf sd old ^^ n) (effect_init en tf sd old)) \<longrightarrow>
      observable ((effect_step tf sd old ^^ n) (effect_init en tf sd old)) = old) \<and>
   (returned ((effect_step tf sd old ^^ n) (effect_init en tf sd old)) \<longrightarrow>
      observable ((effect_step tf sd old ^^ n) (effect_init en tf sd old))
        = snd (rsi_alert_effect en tf sd old) \<and>
      emitted ((effect_step tf sd old ^^ n) (effect_init en tf sd old))
        = fst (rsi_alert_effect en tf sd old)) \<and>
   returned ((effect_step tf sd old ^^ Suc (length sd)) (effect_init en tf sd old))"
proof (cases "en \<and> tf \<in> set ALLOWED_TIMEFRAMES_FOR_ALERTS \<and> sd \<noteq> []")
  case False
  then have i: "effect_init en tf sd old
      = \<lparr>observable = old, newAlertStatus = old, emitted = [], pending = [], returned = True\<rparr>"
    by (auto simp: effect_init_def)
  have r: "rsi_alert_effect en tf sd old = ([], old)"
    using False by (auto simp: rsi_alert_effect_def)
  have "\<And>m. (effect_step tf sd old ^^ m) (effect_init en tf sd old) = effect_init en tf sd old"
    by (rule steps_returned) (simp add: i)
  then show ?thesis by (simp add: i r del: funpow.simps)
next
  case True
  let ?ks = "map fst sd"
  let ?init = "\<lparr>observable = old, newAlertStatus = old, emitted = [], pending = ?ks, returned = False\<rparr>"
  let ?fin = "alert_forEach tf sd old ?ks ([], old)"
  have i: "effect_init en tf sd old = ?init"
    using True by (simp add: effect_init_def)
  have r: "rsi_alert_effect en tf sd old = ?fin"
    using True by (simp add: effect_pair)
  have early: "(effect_step tf sd old ^^ m) ?init
      = \<lparr>observable = old, newAlertStatus = snd (alert_forEach tf sd old (take m ?ks) ([], old)),
          emitted = fst (alert_forEach tf sd old (take m ?ks) ([], old)),
          pending = drop m ?ks, returned = False\<rparr>" if "m \<le> length sd" for m
    using steps_visit [where tf = tf and sd = sd and old = old and ks = "take m ?ks" and ob = old
            and a = old and e = "[]" and rest = "drop m ?ks"] that
    by (simp add: min_absorb2)
  have inst: "(effect_step tf sd old ^^ Suc (length sd)) ?init
      = \<lparr>observable = snd ?fin, newAlertStatus = snd ?fin, emitted = fst ?fin,
          pending = [], returned = True\<rparr>"
    using early [of "length sd"] by (simp add: step_install)
  have late: "(effect_step tf sd old ^^ m) ?init
      = \<lparr>observable = snd ?fin, newAlertStatus = snd ?fin, emitted = fst ?fin,
          pending = [], returned = True\<rparr>" if "Suc (length sd) \<le> m" for m
  proof -
    have m: "m = (m - Suc (length sd)) + Suc (length sd)" using that by simp
    have "(effect_step tf sd old ^^ ((m - Suc (length sd)) + Suc (length sd))) ?init
        = \<lparr>observable = snd ?fin, newAlertStatus = snd ?fin, emitted = fst ?fin,
            pending = [], returned = True\<rparr>"
      unfolding funpow_add o_apply inst by (rule steps_returned) simp
    then show ?thesis using m by simp
  qed
  show ?thesis
  proof (cases "n \<le> length sd")
    case True
    then show ?thesis using early [OF True] inst by (simp add: i r del: funpow.simps)
  next
    case False
    then have "Suc (length sd) \<le> n" by simp
    from late [OF this] inst show ?thesis by (simp add: i r del: funpow.simps)
  qed
qed

text \<open>
  Two symbols: after the first key is visited the local copy has changed and the observable
  state has not; after the last step the observable state has both new entries.
\<close>

theorem alert_state_swapped_once_witness:
  "\<not> returned ((effect_step TF_15m [(''BTCUSDT'', symbol_with_rsi [80]), (''ETHUSDT'', symbol_with_rsi [20])] []
                  ^^ Suc 0)
                 (effect_init True TF_15m
                    [(''BTCUSDT'', symbol_with_rsi [80]), (''ETHUSDT'', symbol_with_rsi [20])] [])) \<and>
   newAlertStatus ((effect_step TF_15m [(''BTCUSDT'', symbol_with_rsi [80]), (''ETHUSDT'', symbol_with_rsi [20])] []
                  ^^ Suc 0)
                 (effect_init True TF_15m
                    [(''BTCUSDT'', symbol_with_rsi [80]), (''ETHUSDT'', symbol_with_rsi [20])] []))
     = [(''BTCUSDT-15m'', Overbought)] \<and>
   observable ((effect_step TF_15m [(''BTCUSDT'', symbol_with_rsi [80]), (''ETHUSDT'', symbol_with_rsi [20])] []
                  ^^ Suc 0)
                 (effect_init True TF_15m
                    [(''BTCUSDT'', symbol_with_rsi [80]), (''ETHUSDT'', symbol_with_rsi [20])] []))
     = [] \<and>
   returned ((effect_step TF_15m [(''BTCUSDT'', symbol_with_rsi [80]), (''ETHUSDT'', symbol_with_rsi [20])] []
                  ^^ Suc (Suc (Suc 0)))
                 (effect_init True TF_15m
                    [(''BTCUSDT'', symbol_with_rsi [80]), (''ETHUSDT'', symbol_with_rsi [20])] [])) \<and>
   observable ((effect_step TF_15m [(''BTCUSDT'', symbol_with_rsi [80]), (''ETHUSDT'', symbol_with_rsi [20])] []
                  ^^ Suc (Suc (Suc 0)))
                 (effect_init True TF_15m
                    [(''BTCUSDT'', symbol_with_rsi [80]), (''ETHUSDT'', symbol_with_rsi [20])] []))
     = [(''BTCUSDT-15m'', Overbought), (''ETHUSDT-15m'', Oversold)]"
proof -
  let ?sd = "[(''BTCUSDT'', symbol_with_rsi [80]), (''ETHUSDT'', symbol_with_rsi [20])]"
  have one: "(effect_step TF_15m ?sd [] ^^ Suc 0) (effect_init True TF_15m ?sd [])
      = \<lparr>observable = [], newAlertStatus = [(''BTCUSDT-15m'', Overbought)],
          emitted = [\<lparr>n_symbol = ''BTCUSDT'', n_timeframe = TF_15m, n_rsi = 80, n_type = N_overbought\<rparr>],
          pending = [''ETHUSDT''], returned = False\<rparr>"
    by (simp add: effect_init_def effect_step_def ALLOWED_TIMEFRAMES_FOR_ALERTS_def alert_body_def
          symbol_with_rsi_def alertKey_def previousStatus_def overboughtThreshold_def
          oversoldThreshold_def Let_def)
  have final: "snd (rsi_alert_effect True TF_15m ?sd [])
      = [(''BTCUSDT-15m'', Overbought), (''ETHUSDT-15m'', Oversold)]"
    by (simp add: rsi_alert_effect_def ALLOWED_TIMEFRAMES_FOR_ALERTS_def alert_body_def
          symbol_with_rsi_def alertKey_def previousStatus_def overboughtThreshold_def
          oversoldThreshold_def Let_def)
  show ?thesis
    using alert_state_swapped_once [where tf = TF_15m and sd = ?sd and old = "[]" and n = "Suc 0"
            and en = True]
      alert_state_swapped_once [where tf = TF_15m and sd = ?sd and old = "[]"
            and n = "Suc (Suc (Suc 0))" and en = True]
    by (simp only: one final list.size) simp
qed

section \<open>The Wilder oscillator: length and range of the RSI series\<close>

lemma length_price_deltas: "length (price_deltas xs) = length xs - 1"
  by (induction xs rule: price_deltas.induct) auto

lemma length_wilder_smoothing: "length (wilder_smoothing avg ds) = length ds"
  by (induction ds arbitrary: avg) (auto simp: Let_def)

lemma length_wilder_averages:
  "length (wilder_averages closes) = Suc (length closes - 1 - period_P)"
  by (simp add: wilder_averages_def Let_def length_wilder_smoothing length_price_deltas)

lemma length_wilder_rsi:
  "length (wilder_rsi candles) = length candles - period_P"
  by (auto simp: wilder_rsi_def length_wilder_averages period_P_def)

lemma gain_nonneg: "0 \<le> gain d" by (simp add: gain_def)
lemma loss_nonneg: "0 \<le> loss d" by (simp add: loss_def)

lemma seed_nonneg: "0 \<le> fst (seed_averages ds) \<and> 0 \<le> snd (seed_averages ds)"
proof -
  have "0 \<le> sum_list (map gain (take period_P ds))"
    by (rule sum_list_nonneg) (auto simp: gain_nonneg)
  moreover have "0 \<le> sum_list (map loss (take period_P ds))"
    by (rule sum_list_nonneg) (auto simp: loss_nonneg)
  ultimately show ?thesis by (simp add: seed_averages_def)
qed

lemma smoothing_nonneg:
  "0 \<le> fst avg \<Longrightarrow> 0 \<le> snd avg \<Longrightarrow> a \<in> set (wilder_smoothing avg ds) \<Longrightarrow> 0 \<le> fst a \<and> 0 \<le> snd a"
proof (induction ds arbitrary: avg)
  case Nil then show ?case by simp
next
  case (Cons d ds)
  let ?avg' = "((fst avg * (real period_P - 1) + gain d) / real period_P,
                  (snd avg * (real period_P - 1) + loss d) / real period_P)"
  have p: "0 \<le> real period_P - 1" by (simp add: period_P_def)
  have g: "0 \<le> fst ?avg'" using Cons.prems(1) p gain_nonneg [of d] by simp
  have l: "0 \<le> snd ?avg'" using Cons.prems(2) p loss_nonneg [of d] by simp
  from Cons.prems(3) have "a = ?avg' \<or> a \<in> set (wilder_smoothing ?avg' ds)"
    by (simp add: Let_def)
  then show ?case using g l Cons.IH [OF g l] by auto
qed

lemma averages_nonneg:
  "a \<in> set (wilder_averages closes) \<Longrightarrow> 0 \<le> fst a \<and> 0 \<le> snd a"
proof -
  let ?seed = "seed_averages (price_deltas closes)"
  assume "a \<in> set (wilder_averages closes)"
  then have "a = ?seed \<or> a \<in> set (wilder_smoothing ?seed (drop period_P (price_deltas closes)))"
    by (simp add: wilder_averages_def Let_def)
  then show ?thesis
    using seed_nonneg [of "price_deltas closes"]
      smoothing_nonneg [of ?seed a "drop period_P (price_deltas closes)"] by blast
qed

lemma rsi_value_bounds:
  assumes "0 \<le> g" "0 \<le> l"
  shows "0 \<le> rsi_value g l \<and> rsi_value g l \<le> 100"
proof (cases "l = 0")
  case True
  then show ?thesis using assms by (auto simp: rsi_value_def)
next
  case False
  then have l: "0 < l" using assms by simp
  have "1 \<le> 1 + g / l" using assms l by simp
  then have "100 / (1 + g / l) \<le> 100" "0 \<le> 100 / (1 + g / l)"
    by (simp_all add: divide_le_eq)
  then show ?thesis using False by (simp add: rsi_value_def)
qed

lemma wilder_rsi_nth:
  assumes "i < length (wilder_rsi candles)"
  shows "wilder_rsi candles ! i =
     \<lparr>dp_time = k_time (candles ! (i + period_P)),
      dp_value = rsi_value (fst (wilder_averages (map k_close candles) ! i))
                           (snd (wilder_averages (map k_close candles) ! i))\<rparr>"
proof -
  have n: "period_P < length candles" "i < length candles - period_P"
    using assms by (simp_all add: length_wilder_rsi)
  then have "i < length (wilder_averages (map k_close candles))"
    by (simp add: length_wilder_averages)
  then show ?thesis using n by (simp add: wilder_rsi_def add.commute)
qed

lemma wilder_rsi_bounds:
  assumes "p \<in> set (wilder_rsi candles)"
  shows "0 \<le> dp_value p \<and> dp_value p \<le> 100"
proof -
  from assms obtain i where i: "i < length (wilder_rsi candles)" "p = wilder_rsi candles ! i"
    by (auto simp: in_set_conv_nth)
  have "i < length (wilder_averages (map k_close candles))"
    using i(1) by (simp add: length_wilder_rsi length_wilder_averages)
  then have "wilder_averages (map k_close candles) ! i \<in> set (wilder_averages (map k_close candles))"
    by simp
  from averages_nonneg [OF this] show ?thesis
    by (simp add: i(2) wilder_rsi_nth [OF i(1)] rsi_value_bounds)
qed

text \<open>
  Claim C3. For more than 14 candles the RSI series has exactly \<open>length candles - 14\<close> points,
  every value lies between 0 and 100, and point \<open>i\<close> carries the time of candle \<open>i + 14\<close>;
  for at most 14 candles the calculator returns the empty \<open>rsi\<close> and \<open>sma\<close> series. The
  calculator is a total function whose result type has no error value.
\<close>

theorem wilder_rsi_length_and_range:
  "(length candles > 14 \<longrightarrow>
      length (fst (wilder_oscillator candles)) = length candles - 14 \<and>
      (\<forall>p \<in> set (fst (wilder_oscillator candles)). 0 \<le> dp_value p \<and> dp_value p \<le> 100) \<and>
      (\<forall>i < length candles - 14.
         dp_time (fst (wilder_oscillator candles) ! i) = k_time (candles ! (i + 14)))) \<and>
   (length candles \<le> 14 \<longrightarrow> wilder_oscillator candles = ([], []))"
proof (intro conjI impI allI ballI)
  show "length (fst (wilder_oscillator candles)) = length candles - 14"
    by (simp add: wilder_oscillator_def length_wilder_rsi period_P_def)
  show "0 \<le> dp_value p" "dp_value p \<le> 100" if "p \<in> set (fst (wilder_oscillator candles))" for p
    using wilder_rsi_bounds [of p candles] that by (simp_all add: wilder_oscillator_def)
  show "dp_time (fst (wilder_oscillator candles) ! i) = k_time (candles ! (i + 14))"
    if "i < length candles - 14" for i
    using that wilder_rsi_nth [of i candles]
    by (simp add: wilder_oscillator_def length_wilder_rsi period_P_def)
  show "wilder_oscillator candles = ([], [])" if "length candles \<le> 14"
    using that by (simp add: wilder_oscillator_def wilder_rsi_def trailing_sma_def period_P_def)
qed

text \<open>
  The fifteen closes of the spec's scenario give one RSI point, \<open>250 / 7\<close> (avgGain \<open>5 / 14\<close>,
  avgLoss \<open>9 / 14\<close>); the first fourteen of them give no point.
\<close>

theorem wilder_rsi_length_and_range_witness:
  "length (candles_of_closes [10, 11, 12, 13, 14, 15, 14, 13, 12, 11, 10, 9, 8, 7, 6]) > 14 \<and>
   fst (wilder_oscillator (candles_of_closes [10, 11, 12, 13, 14, 15, 14, 13, 12, 11, 10, 9, 8, 7, 6]))
     = [\<lparr>dp_time = 14, dp_value = 250 / 7\<rparr>] \<and>
   length (candles_of_closes [10, 11, 12, 13, 14, 15, 14, 13, 12, 11, 10, 9, 8, 7]) \<le> 14 \<and>
   wilder_oscillator (candles_of_closes [10, 11, 12, 13, 14, 15, 14, 13, 12, 11, 10, 9, 8, 7])
     = ([], [])"
proof -
  let ?c15 = "candles_of_closes [10, 11, 12, 13, 14, 15, 14, 13, 12, 11, 10, 9, 8, 7, 6]"
  let ?c14 = "candles_of_closes [10, 11, 12, 13, 14, 15, 14, 13, 12, 11, 10, 9, 8, 7]"
  have v: "fst (wilder_oscillator ?c15) = [\<lparr>dp_time = 14, dp_value = 250 / 7\<rparr>]"
    by (simp add: wilder_oscillator_def candles_of_closes_def wilder_rsi_def period_P_def
          wilder_averages_def seed_averages_def gain_def loss_def rsi_value_def Let_def)
  have l: "length ?c15 = 15" "length ?c14 = 14" by (simp_all add: candles_of_closes_def)
  show ?thesis
    using wilder_rsi_length_and_range [of ?c15] wilder_rsi_length_and_range [of ?c14]
    by (simp add: v l)
qed

lemma stoch_K_nth:
  "i < length (stoch_K xs) \<Longrightarrow>
   dp_value (stoch_K xs ! i) = stoch_k_value (map dp_value (take lookback_L (drop i xs)))"
  by (simp add: stoch_K_def)

text \<open>
  Claim C6. With avgLoss zero and avgGain positive the RSI value is 100; with both zero it is 50;
  with a lookback window whose maximum equals its minimum \<open>%K\<close> is 50. Every point of the RSI
  series is this value of the averages at its index, and every point of the \<open>%K\<close> series is
  this value of its window, so the series carry the sentinels and no failure.
\<close>

theorem degenerate_denominators:
  "(avgLoss = 0 \<and> avgGain > 0 \<longrightarrow> rsi_value avgGain avgLoss = 100) \<and>
   (avgGain = 0 \<and> avgLoss = 0 \<longrightarrow> rsi_value avgGain avgLoss = 50) \<and>
   (Max (set w) - Min (set w) = 0 \<longrightarrow> stoch_k_value w = 50) \<and>
   (i < length (wilder_rsi candles) \<longrightarrow>
      dp_value (wilder_rsi candles ! i)
        = rsi_value (fst (wilder_averages (map k_close candles) ! i))
                    (snd (wilder_averages (map k_close candles) ! i))) \<and>
   (j < length (stoch_K xs) \<longrightarrow>
      dp_value (stoch_K xs ! j) = stoch_k_value (map dp_value (take 14 (drop j xs))))"
proof (intro conjI impI)
  show "rsi_value avgGain avgLoss = 100" if "avgLoss = 0 \<and> avgGain > 0"
    using that by (simp add: rsi_value_def)
  show "rsi_value avgGain avgLoss = 50" if "avgGain = 0 \<and> avgLoss = 0"
    using that by (simp add: rsi_value_def)
  show "stoch_k_value w = 50" if "Max (set w) - Min (set w) = 0"
    using that by (simp add: stoch_k_value_def Let_def)
  show "dp_value (wilder_rsi candles ! i)
        = rsi_value (fst (wilder_averages (map k_close candles) ! i))
                    (snd (wilder_averages (map k_close candles) ! i))"
    if "i < length (wilder_rsi candles)"
    using wilder_rsi_nth [OF that] by simp
  show "dp_value (stoch_K xs ! j) = stoch_k_value (map dp_value (take 14 (drop j xs)))"
    if "j < length (stoch_K xs)"
    using stoch_K_nth [OF that] by (simp add: lookback_L_def)
qed

text \<open>
  Rising closes (avgLoss 0, avgGain 1) give RSI 100, flat closes give RSI 50, and fourteen equal
  RSI values give \<open>%K = 50\<close>.
\<close>

theorem degenerate_denominators_witness:
  "map dp_value (wilder_rsi (candles_of_closes [1, 2, 3, 4, 5, 6, 7, 8, 9, 10, 11, 12, 13, 14, 15]))
     = [100] \<and>
   wilder_averages (map k_close (candles_of_closes [1, 2, 3, 4, 5, 6, 7, 8, 9, 10, 11, 12, 13, 14, 15]))
     = [(1, 0)] \<and>
   map dp_value (wilder_rsi (candles_of_closes [7, 7, 7, 7, 7, 7, 7, 7, 7, 7, 7, 7, 7, 7, 7]))
     = [50] \<and>
   wilder_averages (map k_close (candles_of_closes [7, 7, 7, 7, 7, 7, 7, 7, 7, 7, 7, 7, 7, 7, 7]))
     = [(0, 0)] \<and>
   Max (set (replicate 14 (50::real))) - Min (set (replicate 14 (50::real))) = 0 \<and>
   map dp_value (stoch_K (map (\<lambda>v. \<lparr>dp_time = 0, dp_value = v\<rparr>) (replicate 14 50))) = [50]"
proof -
  let ?up = "candles_of_closes [1, 2, 3, 4, 5, 6, 7, 8, 9, 10, 11, 12, 13, 14, 15]"
  let ?flat = "candles_of_closes [7, 7, 7, 7, 7, 7, 7, 7, 7, 7, 7, 7, 7, 7, 7]"
  let ?xs = "map (\<lambda>v. \<lparr>dp_time = 0, dp_value = v\<rparr>) (replicate 14 (50::real))"
  have up: "wilder_averages (map k_close ?up) = [(1, 0)]"
    by (simp add: candles_of_closes_def wilder_averages_def seed_averages_def period_P_def
          gain_def loss_def Let_def)
  have flat: "wilder_averages (map k_close ?flat) = [(0, 0)]"
    by (simp add: candles_of_closes_def wilder_averages_def seed_averages_def period_P_def
          gain_def loss_def Let_def)
  have len: "length (wilder_rsi ?up) = 1" "length (wilder_rsi ?flat) = 1" "length (stoch_K ?xs) = 1"
    by (simp_all add: length_wilder_rsi period_P_def candles_of_closes_def stoch_K_def lookback_L_def)
  have mm: "Max (set (replicate 14 (50::real))) - Min (set (replicate 14 (50::real))) = 0"
    by simp
  have one: "\<And>ys::RsiDataPoint list. length ys = 1 \<Longrightarrow> map dp_value ys = [dp_value (ys ! 0)]"
    subgoal for ys by (cases ys) auto done
  have v1: "dp_value (wilder_rsi ?up ! 0) = 100"
    using degenerate_denominators [of 0 1 "[]" 0 ?up 0 "[]"] len(1) by (simp add: up)
  have v2: "dp_value (wilder_rsi ?flat ! 0) = 50"
    using degenerate_denominators [of 0 0 "[]" 0 ?flat 0 "[]"] len(2) by (simp add: flat)
  have v3: "dp_value (stoch_K ?xs ! 0) = 50"
    using degenerate_denominators [of 0 0 "replicate 14 50" 0 "[]" 0 ?xs] len(3) mm
    by auto
  have r1: "map dp_value (wilder_rsi ?up) = [100]" by (simp only: one [OF len(1)] v1)
  have r2: "map dp_value (wilder_rsi ?flat) = [50]" by (simp only: one [OF len(2)] v2)
  have r3: "map dp_value (stoch_K ?xs) = [50]" by (simp only: one [OF len(3)] v3)
  show ?thesis by (intro conjI r1 r2 r3 up flat mm)
qed

section \<open>The volume profile: levels and volume\<close>

lemma length_add_candle: "length (add_candle pm w n bs c) = length bs"
  by (simp add: add_candle_def Let_def)

lemma length_fill_buckets: "length (fill_buckets pm w n bs cs) = length bs"
  by (induction cs arbitrary: bs) (simp_all add: length_add_candle)

lemma length_empty_buckets: "length (empty_buckets pm w n) = n"
  by (simp add: empty_buckets_def)

lemma map_update_same: "f y = f (xs ! i) \<Longrightarrow> map f (xs[i := y]) = map f xs"
  by (induction xs arbitrary: i) (auto split: nat.splits)

lemma price_add_candle: "map b_price (add_candle pm w n bs c) = map b_price bs"
  unfolding add_candle_def Let_def by (rule map_update_same) simp

lemma price_fill_buckets: "map b_price (fill_buckets pm w n bs cs) = map b_price bs"
  by (induction cs arbitrary: bs) (simp_all add: price_add_candle)

lemma price_nth:
  assumes "i < n"
  shows "b_price (fill_buckets pm w n (empty_buckets pm w n) cs ! i) = pm + (real i + 1 / 2) * w"
proof -
  have "b_price (fill_buckets pm w n (empty_buckets pm w n) cs ! i)
        = map b_price (fill_buckets pm w n (empty_buckets pm w n) cs) ! i"
    using assms by (simp add: length_fill_buckets length_empty_buckets)
  also have "\<dots> = map b_price (empty_buckets pm w n) ! i" by (simp only: price_fill_buckets)
  also have "\<dots> = pm + (real i + 1 / 2) * w" using assms by (simp add: empty_buckets_def)
  finally show ?thesis .
qed

lemma sum_list_map_update:
  fixes f :: "'a \<Rightarrow> real"
  shows "i < length xs \<Longrightarrow> sum_list (map f (xs[i := y])) = sum_list (map f xs) - f (xs ! i) + f y"
proof (induction xs arbitrary: i)
  case Nil then show ?case by simp
next
  case (Cons x xs) then show ?case by (cases i) simp_all
qed

lemma bucket_index_less: "0 < n \<Longrightarrow> bucket_index pm w n p < n"
  unfolding bucket_index_def by (cases n) (simp_all add: min_def)

lemma volume_add_candle:
  assumes "0 < n" "length bs = n"
  shows "sum_list (map b_volume (add_candle pm w n bs c)) = sum_list (map b_volume bs) + k_volume c"
  using bucket_index_less [OF assms(1), of pm w "k_close c"] assms(2)
  by (simp add: add_candle_def Let_def sum_list_map_update)

lemma volume_fill_buckets:
  assumes "0 < n" "length bs = n"
  shows "sum_list (map b_volume (fill_buckets pm w n bs cs))
           = sum_list (map b_volume bs) + sum_list (map k_volume cs)"
  using assms(2)
proof (induction cs arbitrary: bs)
  case Nil then show ?case by simp
next
  case (Cons c cs)
  have "length (add_candle pm w n bs c) = n" using Cons.prems by (simp add: length_add_candle)
  from Cons.IH [OF this] show ?case
    using volume_add_candle [OF assms(1) Cons.prems] by simp
qed

lemma volume_empty_buckets: "sum_list (map b_volume (empty_buckets pm w n)) = 0"
  by (simp add: empty_buckets_def comp_def)

lemma poc_index_less: "vols \<noteq> [] \<Longrightarrow> poc_index vols < length vols"
proof -
  assume ne: "vols \<noteq> []"
  then have "Max (set vols) \<in> set vols" by simp
  then have "takeWhile (\<lambda>v. v \<noteq> Max (set vols)) vols \<noteq> vols"
    by auto
  moreover have "length (takeWhile (\<lambda>v. v \<noteq> Max (set vols)) vols) \<le> length vols"
    by (rule length_takeWhile_le)
  ultimately show ?thesis unfolding poc_index_def
    by (metis le_neq_implies_less takeWhile_eq_take take_all_iff order_refl)
qed

lemma value_area_range:
  "lo \<le> p \<Longrightarrow> p \<le> hi \<Longrightarrow> hi < length vols \<Longrightarrow>
   fst (value_area vols target lo hi acc) \<le> p \<and> p \<le> snd (value_area vols target lo hi acc)
   \<and> snd (value_area vols target lo hi acc) < length vols"
proof (induction vols target lo hi acc rule: value_area.induct)
  case (1 vols target lo hi acc)
  show ?case
    using "1.prems" "1.IH"
    by (subst (1 2 3) value_area.simps) auto
qed

lemma price_range:
  assumes "candles \<noteq> []" "\<forall>c \<in> set candles. candle_ok c"
  shows "Min (set (map k_low candles)) \<le> Max (set (map k_high candles))"
proof -
  obtain c where c: "c \<in> set candles" using assms(1) by (cases candles) auto
  have "Min (set (map k_low candles)) \<le> k_low c" using c by simp
  also have "\<dots> \<le> k_high c" using assms(2) c by (auto simp: candle_ok_def)
  also have "\<dots> \<le> Max (set (map k_high candles))" using c by simp
  finally show ?thesis .
qed

lemma build_Inr:
  assumes "build candles resolution = Inr p"
  defines "pm \<equiv> Min (set (map k_low candles))"
  defines "px \<equiv> Max (set (map k_high candles))"
  defines "w \<equiv> (px - pm) / real resolution"
  defines "bs \<equiv> fill_buckets pm w resolution (empty_buckets pm w resolution) candles"
  defines "pocIdx \<equiv> poc_index (map b_volume bs)"
  defines "area \<equiv> value_area (map b_volume bs) (0.7 * sum_list (map b_volume bs)) pocIdx pocIdx
                    (map b_volume bs ! pocIdx)"
  shows "2 \<le> length candles" "px \<noteq> pm"
    "p = \<lparr>vp_profile = bs, vp_poc = b_price (bs ! pocIdx), vp_vah = b_price (bs ! snd area),
          vp_val = b_price (bs ! fst area), vp_maxVolume = b_volume (bs ! pocIdx),
          vp_minPrice = pm, vp_maxPrice = px\<rparr>"
  using assms(1) unfolding build_def pm_def px_def w_def bs_def pocIdx_def area_def Let_def
  by (auto split: if_splits)

lemma sample_build:
  "build sample_window 4 =
     Inr \<lparr>vp_profile =
            [\<lparr>b_price = 11, b_volume = 5, b_buyVolume = 2, b_sellVolume = 3\<rparr>,
             \<lparr>b_price = 13, b_volume = 4, b_buyVolume = 4, b_sellVolume = 0\<rparr>,
             \<lparr>b_price = 15, b_volume = 0, b_buyVolume = 0, b_sellVolume = 0\<rparr>,
             \<lparr>b_price = 17, b_volume = 3, b_buyVolume = 1, b_sellVolume = 2\<rparr>],
          vp_poc = 11, vp_vah = 13, vp_val = 11, vp_maxVolume = 5, vp_minPrice = 10,
          vp_maxPrice = 18\<rparr>"
proof -
  have up: "[0 ..< 4] = [0, 1, 2, Suc 2]" by (simp add: upt_rec)
  have mm: "Min (k_low ` set sample_window) = 10" "Max (k_high ` set sample_window) = 18"
    by (simp_all add: sample_window_def)
  have bs: "fill_buckets 10 2 4 (empty_buckets 10 2 4) sample_window =
            [\<lparr>b_price = 11, b_volume = 5, b_buyVolume = 2, b_sellVolume = 3\<rparr>,
             \<lparr>b_price = 13, b_volume = 4, b_buyVolume = 4, b_sellVolume = 0\<rparr>,
             \<lparr>b_price = 15, b_volume = 0, b_buyVolume = 0, b_sellVolume = 0\<rparr>,
             \<lparr>b_price = 17, b_volume = 3, b_buyVolume = 1, b_sellVolume = 2\<rparr>]"
    by (simp add: sample_window_def empty_buckets_def add_candle_def bucket_index_def up Let_def)
  have poc: "poc_index [5, 4, 0, 3] = 0" by (simp add: poc_index_def)
  have "value_area [5, 4, 0, 3] (42 / 5) 0 0 5 = value_area [5, 4, 0, 3] (42 / 5) 0 1 9"
    by (subst value_area.simps) simp
  also have "\<dots> = (0, 1)" by (subst value_area.simps) simp
  finally have va: "value_area [5, 4, 0, 3] (42 / 5) 0 0 5 = (0, 1)" .
  have len: "length sample_window = 3" by (simp add: sample_window_def)
  show ?thesis
    by (simp add: build_def Let_def mm len bs poc va)
qed

text \<open>
  Claim C2. For every profile the builder returns on normalized candles and a resolution of at
  least 2, \<open>minPrice \<le> val \<le> poc \<le> vah \<le> maxPrice\<close>, and the bucket volumes add up to the
  candle volumes of the window: exactly, in exact arithmetic, hence within a relative tolerance
  of \<open>10\<^sup>-\<^sup>6\<close>.
\<close>

theorem profile_levels_ordered_and_volume_kept:
  assumes "build candles resolution = Inr p" and "2 \<le> resolution"
    and "\<forall>c \<in> set candles. candle_ok c"
  shows "vp_minPrice p \<le> vp_val p \<and> vp_val p \<le> vp_poc p \<and> vp_poc p \<le> vp_vah p
         \<and> vp_vah p \<le> vp_maxPrice p
         \<and> sum_list (map b_volume (vp_profile p)) = sum_list (map k_volume candles)
         \<and> \<bar>sum_list (map b_volume (vp_profile p)) - sum_list (map k_volume candles)\<bar>
             \<le> 1 / 1000000 * \<bar>sum_list (map k_volume candles)\<bar>"
proof -
  define pm where "pm = Min (set (map k_low candles))"
  define px where "px = Max (set (map k_high candles))"
  define w where "w = (px - pm) / real resolution"
  define bs where "bs = fill_buckets pm w resolution (empty_buckets pm w resolution) candles"
  define vols where "vols = map b_volume bs"
  define pocIdx where "pocIdx = poc_index vols"
  define area where "area = value_area vols (0.7 * sum_list vols) pocIdx pocIdx (vols ! pocIdx)"
  note b = build_Inr [OF assms(1), folded pm_def px_def, folded w_def, folded bs_def,
      folded vols_def, folded pocIdx_def, folded area_def]
  have n: "0 < resolution" using assms(2) by simp
  have len: "length bs = resolution"
    by (simp add: bs_def length_fill_buckets length_empty_buckets)
  have ne: "candles \<noteq> []" using b(1) by auto
  have "pm \<le> px" unfolding pm_def px_def by (rule price_range [OF ne assms(3)])
  then have "pm < px" using b(2) by simp
  then have w: "0 < w" using n by (simp add: w_def)
  have rw: "real resolution * w = px - pm" using n by (simp add: w_def)
  have "vols \<noteq> []" using len n by (auto simp: vols_def)
  then have poc: "pocIdx < length vols" unfolding pocIdx_def by (rule poc_index_less)
  have ar: "fst area \<le> pocIdx \<and> pocIdx \<le> snd area \<and> snd area < length vols"
    unfolding area_def by (rule value_area_range) (simp_all add: poc)
  have lv: "length vols = resolution" by (simp add: vols_def len)
  have lvl: "b_price (bs ! i) = pm + (real i + 1 / 2) * w" if "i < resolution" for i
    unfolding bs_def by (rule price_nth [OF that])
  have lo: "fst area < resolution" and hi: "snd area < resolution" and pc: "pocIdx < resolution"
    using ar poc lv by auto
  have 1: "pm \<le> b_price (bs ! fst area)" using w by (simp add: lvl [OF lo])
  have 2: "b_price (bs ! fst area) \<le> b_price (bs ! pocIdx)"
    using w ar by (simp add: lvl [OF lo] lvl [OF pc])
  have 3: "b_price (bs ! pocIdx) \<le> b_price (bs ! snd area)"
    using w ar by (simp add: lvl [OF hi] lvl [OF pc])
  have "real (snd area) + 1 / 2 \<le> real resolution" using hi by simp
  then have "(real (snd area) + 1 / 2) * w \<le> real resolution * w"
    using w by (simp add: mult_right_mono)
  then have 4: "b_price (bs ! snd area) \<le> px" by (simp add: lvl [OF hi] rw)
  have 5: "sum_list (map b_volume bs) = sum_list (map k_volume candles)"
    unfolding bs_def
    by (simp add: volume_fill_buckets [OF n length_empty_buckets] volume_empty_buckets)
  show ?thesis using 1 2 3 4 5 by (simp add: b(3))
qed

text \<open>The sample window at resolution 4: levels 10, 11, 11, 13, 18 and a volume of 12.\<close>

theorem profile_levels_ordered_and_volume_kept_witness:
  "list_all candle_ok sample_window \<and>
   (\<exists>p. build sample_window 4 = Inr p \<and>
      vp_minPrice p = 10 \<and> vp_val p = 11 \<and> vp_poc p = 11 \<and> vp_vah p = 13 \<and> vp_maxPrice p = 18 \<and>
      sum_list (map b_volume (vp_profile p)) = 12 \<and> sum_list (map k_volume sample_window) = 12)"
proof -
  have ok: "\<forall>c \<in> set sample_window. candle_ok c"
    by (simp add: sample_window_def candle_ok_def)
  have v: "sum_list (map k_volume sample_window) = 12" by (simp add: sample_window_def)
  have "list_all candle_ok sample_window" using ok by (simp add: list_all_iff)
  then show ?thesis
    using profile_levels_ordered_and_volume_kept [OF sample_build _ ok] v
    by (simp add: sample_build)
qed

text \<open>
  The caller in PriceDetailModal.tsx hands every non-empty kline list to the builder, with
  resolution 100; a single candle is therefore left to the builder to reject.
\<close>

lemma volumeProfileData_calls_builder:
  "volumeProfileData f (Some d) = (if klines d = [] then None else f (klines d) 100)"
  by (simp add: volumeProfileData_def)

text \<open>
  Claim C5. The builder fails with InsufficientData exactly when the window has fewer than two
  candles or its maximum high equals its minimum low; it fails with no other error; and on every
  other window, with a resolution of at least 2, it returns a profile.
\<close>

theorem build_fails_iff:
  "(build candles resolution = Inl InsufficientData \<longleftrightarrow>
      length candles < 2 \<or> Max (set (map k_high candles)) = Min (set (map k_low candles))) \<and>
   (\<forall>e. build candles resolution = Inl e \<longrightarrow> e = InsufficientData) \<and>
   (\<not> (length candles < 2 \<or> Max (set (map k_high candles)) = Min (set (map k_low candles)))
      \<and> 2 \<le> resolution \<longrightarrow> (\<exists>p. build candles resolution = Inr p))"
  by (auto simp: build_def Let_def)

text \<open>One candle, two candles of zero range, and the sample window.\<close>

theorem build_fails_iff_witness:
  "build [\<lparr>k_time = 0, k_open = 10, k_high = 14, k_low = 10, k_close = 11, k_volume = 5,
            k_takerBuyVolume = 2\<rparr>] 4 = Inl InsufficientData \<and>
   build [\<lparr>k_time = 0, k_open = 10, k_high = 10, k_low = 10, k_close = 10, k_volume = 5,
            k_takerBuyVolume = 2\<rparr>,
          \<lparr>k_time = 1, k_open = 10, k_high = 10, k_low = 10, k_close = 10, k_volume = 1,
            k_takerBuyVolume = 0\<rparr>] 4 = Inl InsufficientData \<and>
   2 \<le> length sample_window \<and>
   Max (set (map k_high sample_window)) \<noteq> Min (set (map k_low sample_window)) \<and>
   (\<exists>p. build sample_window 4 = Inr p)"
proof -
  let ?one = "[\<lparr>k_time = 0, k_open = 10, k_high = 14, k_low = 10, k_close = 11, k_volume = 5,
            k_takerBuyVolume = 2\<rparr>]"
  let ?flat = "[\<lparr>k_time = 0, k_open = 10, k_high = 10, k_low = 10, k_close = 10, k_volume = 5,
            k_takerBuyVolume = 2\<rparr>,
          \<lparr>k_time = 1, k_open = 10, k_high = 10, k_low = 10, k_close = 10, k_volume = 1,
            k_takerBuyVolume = 0\<rparr>]"
  have 1: "build ?one 4 = Inl InsufficientData"
    using build_fails_iff [of ?one 4] by simp
  have 2: "build ?flat 4 = Inl InsufficientData"
    using build_fails_iff [of ?flat 4] by simp
  have 3: "2 \<le> length sample_window"
    "Max (set (map k_high sample_window)) \<noteq> Min (set (map k_low sample_window))"
    by (simp_all add: sample_window_def)
  have 4: "\<exists>p. build sample_window 4 = Inr p"
    using build_fails_iff [of sample_window 4] 3 by simp
  show ?thesis using 1 2 3 4 by blast
qed

end
